theory Spec2Isabelle
  imports Complex_Main "HOL-Library.Sublist" "HOL-Library.Word"
begin

section \<open>Go library functions used by the Elasticsearch scaler\<close>

text \<open>
  Go strings are byte sequences; they are modelled as \<open>string\<close>. \<open>Index s substr\<close>
  is \<^verbatim>\<open>strings.Index\<close>: the position of the first occurrence of \<open>substr\<close> in
  \<open>s\<close>, or \<open>None\<close> where Go returns -1.
\<close>

fun Index :: "string \<Rightarrow> string \<Rightarrow> nat option" where
  "Index [] substr = (if substr = [] then Some 0 else None)"
| "Index (c # cs) substr =
     (if prefix substr (c # cs) then Some 0 else map_option Suc (Index cs substr))"

text \<open>
  \<^verbatim>\<open>strings.Split(s, sep)\<close> is \<^verbatim>\<open>genSplit\<close> without a limit: cut at the first
  occurrence of \<open>sep\<close>, continue behind it, and end with the rest. The scaler only
  calls it with the separators \<^verbatim>\<open>","\<close>, \<^verbatim>\<open>";"\<close> and \<^verbatim>\<open>":"\<close>. For the empty
  separator Go explodes the string into its UTF-8 sequences; the model does so byte by
  byte, which is the same on ASCII text.
\<close>

function genSplit :: "string \<Rightarrow> string \<Rightarrow> string list" where
  "genSplit s sep =
     (if sep = [] then map (\<lambda>c. [c]) s
      else case Index s sep of
             None \<Rightarrow> [s]
           | Some m \<Rightarrow> take m s # genSplit (drop (m + length sep) s) sep)"
  by pat_completeness auto
termination
proof (relation "measure (\<lambda>(s, sep). length s)")
  show "wf (measure (\<lambda>(s, sep). length s))" by simp
next
  fix s sep :: string and m :: nat
  assume sep: "sep \<noteq> []" and idx: "Index s sep = Some m"
  have "\<And>k. Index s sep = Some k \<Longrightarrow> k + length sep \<le> length s"
  proof (induction s)
    case Nil
    then show ?case by (simp split: if_splits)
  next
    case (Cons c cs)
    then show ?case
      by (auto split: if_splits dest: prefix_length_le)
  qed
  from this [OF idx] sep have "length (drop (m + length sep) s) < length s"
    by (cases sep) auto
  then show "((drop (m + length sep) s, sep), (s, sep)) \<in> measure (\<lambda>(s, sep). length s)"
    by simp
qed

declare genSplit.simps [simp del]

definition Split :: "string \<Rightarrow> string \<Rightarrow> string list" where
  "Split s sep = genSplit s sep"

text \<open>\<^verbatim>\<open>strings.Join(elems, sep)\<close> puts \<open>sep\<close> between the elements.\<close>

fun Join :: "string list \<Rightarrow> string \<Rightarrow> string" where
  "Join [] sep = []"
| "Join [x] sep = x"
| "Join (x # y # ys) sep = x @ sep @ Join (y # ys) sep"

text \<open>
  \<^verbatim>\<open>strings.Trim(s, cutset)\<close>: \<open>s\<close> without the leading and trailing characters
  that occur in \<open>cutset\<close> (byte-wise, as Go does for an ASCII cutset).
\<close>

definition TrimLeft :: "string \<Rightarrow> string \<Rightarrow> string" where
  "TrimLeft s cutset = dropWhile (\<lambda>c. c \<in> set cutset) s"

definition TrimRight :: "string \<Rightarrow> string \<Rightarrow> string" where
  "TrimRight s cutset = rev (dropWhile (\<lambda>c. c \<in> set cutset) (rev s))"

definition Trim :: "string \<Rightarrow> string \<Rightarrow> string" where
  "Trim s cutset = TrimLeft (TrimRight s cutset) cutset"

section \<open>splitAndTrimBySep\<close>

text \<open>
  \<^verbatim>\<open>
  func splitAndTrimBySep(s string, sep string) []string {
      x := strings.Split(s, sep)
      for i := range x {
          x[i] = strings.Trim(x[i], " ")
      }
      return x
  }
  \<close>
  The loop over the indices of \<open>x\<close> updates the slice in place.
\<close>

function trim_range :: "nat \<Rightarrow> string list \<Rightarrow> string list" where
  "trim_range i x =
     (if i < length x then trim_range (Suc i) (x[i := Trim (x ! i) '' '']) else x)"
  by pat_completeness auto
termination
  by (relation "measure (\<lambda>(i, x). length x - i)") auto

declare trim_range.simps [simp del]

definition splitAndTrimBySep :: "string \<Rightarrow> string \<Rightarrow> string list" where
  "splitAndTrimBySep s sep = trim_range 0 (Split s sep)"

section \<open>Errors and numbers\<close>

text \<open>
  A Go \<^verbatim>\<open>error\<close> is kept as a value that records how it was made:
  \<open>NumError f s\<close> is the \<^verbatim>\<open>*strconv.NumError\<close> of function \<open>f\<close> on input
  \<open>s\<close>; \<open>ErrorfS fmt a\<close> and \<open>ErrorfE fmt e\<close> are \<^verbatim>\<open>fmt.Errorf(fmt, a)\<close> with a
  string and with an error as the argument of the one \<^verbatim>\<open>%s\<close>; \<open>External m\<close> is
  an error of the search client or of reading its response; \<open>IndexOutOfRange i n\<close>
  is the run-time panic of indexing position \<open>i\<close> of a slice of length \<open>n\<close>.
\<close>

datatype error =
    NumError string string
  | ErrorfS string string
  | ErrorfE string error
  | External string
  | IndexOutOfRange nat nat

text \<open>Go's \<^verbatim>\<open>int\<close> on a 64-bit platform: the integers from \<open>minInt\<close> to \<open>maxInt\<close>.\<close>

definition minInt :: int where
  "minInt = - (2 ^ 63)"

definition maxInt :: int where
  "maxInt = 2 ^ 63 - 1"

fun digits_value :: "nat \<Rightarrow> string \<Rightarrow> nat option" where
  "digits_value n [] = Some n"
| "digits_value n (c # cs) =
     (if c \<in> set ''0123456789'' then digits_value (n * 10 + (of_char c - 48)) cs
      else None)"

text \<open>
  \<^verbatim>\<open>strconv.Atoi\<close>: an optional sign, then one or more decimal digits, and a value
  that fits \<^verbatim>\<open>int\<close>; anything else is a \<^verbatim>\<open>NumError\<close>.
\<close>

definition Atoi :: "string \<Rightarrow> error + int" where
  "Atoi s =
     (let neg = (s \<noteq> [] \<and> hd s = CHR ''-'');
          ds = (if s \<noteq> [] \<and> (hd s = CHR ''-'' \<or> hd s = CHR ''+'') then tl s else s)
      in if ds = [] then Inl (NumError ''Atoi'' s)
         else case digits_value 0 ds of
                None \<Rightarrow> Inl (NumError ''Atoi'' s)
              | Some n \<Rightarrow>
                  (let v = (if neg then - int n else int n)
                   in if minInt \<le> v \<and> v \<le> maxInt then Inr v
                      else Inl (NumError ''Atoi'' s)))"

text \<open>\<^verbatim>\<open>strconv.ParseBool\<close> accepts exactly twelve spellings.\<close>

definition ParseBool :: "string \<Rightarrow> error + bool" where
  "ParseBool str =
     (if str \<in> set [''1'', ''t'', ''T'', ''TRUE'', ''true'', ''True''] then Inr True
      else if str \<in> set [''0'', ''f'', ''F'', ''FALSE'', ''false'', ''False''] then Inr False
      else Inl (NumError ''ParseBool'' str))"

text \<open>
  A \<^verbatim>\<open>float64\<close> is a rational or one of the three special values. The conversion
  \<^verbatim>\<open>int(f)\<close> drops the fraction (towards zero). Where the result does not fit
  \<^verbatim>\<open>int\<close>, or \<open>f\<close> is not finite, Go leaves the value to the implementation: it
  is some \<^verbatim>\<open>int\<close>, given by the platform's \<open>oor\<close>.
\<close>

datatype float64 = Finite rat | PosInf | NegInf | NaN

definition truncate_rat :: "rat \<Rightarrow> int" where
  "truncate_rat q = (if 0 \<le> q then \<lfloor>q\<rfloor> else - \<lfloor>- q\<rfloor>)"

definition float64_to_int :: "(float64 \<Rightarrow> 64 word) \<Rightarrow> float64 \<Rightarrow> int" where
  "float64_to_int oor f =
     (case f of
        Finite q \<Rightarrow>
          (if minInt \<le> truncate_rat q \<and> truncate_rat q \<le> maxInt then truncate_rat q
           else sint (oor f))
      | _ \<Rightarrow> sint (oor f))"

text \<open>On amd64 the conversion instruction yields the most negative integer there.\<close>

definition amd64_oor :: "float64 \<Rightarrow> 64 word" where
  "amd64_oor f = push_bit 63 1"

section \<open>The gjson result\<close>

text \<open>
  \<^verbatim>\<open>gjson.GetBytes(body, path)\<close> is an external library. Its \<^verbatim>\<open>Result\<close> has a
  \<^verbatim>\<open>Type\<close> (one of six), the string \<^verbatim>\<open>Str\<close> and the number \<^verbatim>\<open>Num\<close>. A path that
  does not resolve gives the zero \<^verbatim>\<open>Result\<close>, whose type is \<^verbatim>\<open>Null\<close>; a boolean
  has type \<^verbatim>\<open>True\<close> or \<^verbatim>\<open>False\<close>; an array or an object has type \<^verbatim>\<open>JSON\<close>.
\<close>

datatype gjson_Type = gjNull | gjFalse | gjNumber | gjString | gjTrue | gjJSON

fun Type_String :: "gjson_Type \<Rightarrow> string" where
  "Type_String gjNull = ''Null''"
| "Type_String gjFalse = ''False''"
| "Type_String gjNumber = ''Number''"
| "Type_String gjString = ''String''"
| "Type_String gjTrue = ''True''"
| "Type_String gjJSON = ''JSON''"

record Result =
  Type :: gjson_Type
  Str :: string
  Num :: float64

text \<open>\<^verbatim>\<open>Result.String()\<close> of a result of type \<^verbatim>\<open>String\<close> is its \<^verbatim>\<open>Str\<close>.\<close>

definition errorMsg :: string where
  "errorMsg = ''valueLocation must point to value of type number but got: '' @ [CHR 0x27] @ ''%s'' @ [CHR 0x27]"

section \<open>getValueFromSearch\<close>

definition value_of_Result :: "(float64 \<Rightarrow> 64 word) \<Rightarrow> Result \<Rightarrow> error + int" where
  "value_of_Result oor r =
     (if Type r = gjString then
        (case Atoi (Str r) of
           Inl err \<Rightarrow> Inl (ErrorfS errorMsg (Str r))
         | Inr q \<Rightarrow> Inr q)
      else if Type r \<noteq> gjNumber then Inl (ErrorfS errorMsg (Type_String (Type r)))
      else Inr (float64_to_int oor (Num r)))"

definition getValueFromSearch ::
  "(string \<Rightarrow> string \<Rightarrow> Result) \<Rightarrow> (float64 \<Rightarrow> 64 word) \<Rightarrow> string \<Rightarrow> string \<Rightarrow> error + int" where
  "getValueFromSearch GetBytes oor body valueLocation =
     value_of_Result oor (GetBytes body valueLocation)"

section \<open>Configuration and metadata\<close>

text \<open>
  The three maps of \<^verbatim>\<open>ScalerConfig\<close> that the scaler reads. Reading a Go map at a
  key it does not hold gives the empty string (\<open>lookup\<close>); the two-valued form
  \<^verbatim>\<open>val, ok := m[k]\<close> is the map itself.
\<close>

record ScalerConfig =
  TriggerMetadata :: "string \<rightharpoonup> string"
  AuthParams :: "string \<rightharpoonup> string"
  ResolvedEnv :: "string \<rightharpoonup> string"

definition lookup :: "(string \<rightharpoonup> string) \<Rightarrow> string \<Rightarrow> string" where
  "lookup m k = (case m k of None \<Rightarrow> [] | Some v \<Rightarrow> v)"

record elasticsearchMetadata =
  addresses :: "string list"
  unsafeSsl :: bool
  username :: string
  password :: string
  indexes :: "string list"
  searchTemplateName :: string
  parameters :: "string list"
  valueLocation :: string
  targetValue :: int

text \<open>
  Modelled from the spec: \<^verbatim>\<open>GetFromAuthOrMeta\<close> is a helper of the package that is not
  in the scaler's file. The spec says that a mandatory field may be supplied by the
  auth-parameter map or by the trigger-metadata map, that the auth parameters take
  precedence, that the field is never empty in the resolved metadata, and that a missing
  field fails construction with an error identifying the field.
\<close>

definition GetFromAuthOrMeta :: "ScalerConfig \<Rightarrow> string \<Rightarrow> error + string" where
  "GetFromAuthOrMeta config field =
     (if lookup (AuthParams config) field \<noteq> [] then Inr (lookup (AuthParams config) field)
      else if lookup (TriggerMetadata config) field \<noteq> []
        then Inr (lookup (TriggerMetadata config) field)
      else Inl (ErrorfS ''no %s given'' field))"

definition defaultUnsafeSsl :: bool where
  "defaultUnsafeSsl = False"

text \<open>
  \<^verbatim>\<open>parseElasticsearchMetadata\<close> fills the metadata field by field, in the order of
  the source, and returns at the first error. The zero value of the metadata is
  \<open>meta0\<close>.
\<close>

definition meta0 :: elasticsearchMetadata where
  "meta0 = \<lparr>addresses = [], unsafeSsl = False, username = [], password = [],
     indexes = [], searchTemplateName = [], parameters = [], valueLocation = [],
     targetValue = 0\<rparr>"

definition parse_unsafeSsl :: "ScalerConfig \<Rightarrow> error + bool" where
  "parse_unsafeSsl config =
     (case TriggerMetadata config ''unsafeSsl'' of
        Some val \<Rightarrow>
          (case ParseBool val of
             Inl err \<Rightarrow> Inl (ErrorfE ''error parsing unsafeSsL: %s'' err)
           | Inr b \<Rightarrow> Inr b)
      | None \<Rightarrow> Inr defaultUnsafeSsl)"

definition parse_username :: "ScalerConfig \<Rightarrow> string" where
  "parse_username config =
     (case AuthParams config ''username'' of
        Some val \<Rightarrow> val
      | None \<Rightarrow>
          (case TriggerMetadata config ''username'' of
             Some val \<Rightarrow> val
           | None \<Rightarrow> []))"

definition parse_password :: "ScalerConfig \<Rightarrow> string" where
  "parse_password config =
     (if lookup (AuthParams config) ''password'' \<noteq> []
        then lookup (AuthParams config) ''password''
      else if lookup (TriggerMetadata config) ''passwordFromEnv'' \<noteq> []
        then lookup (ResolvedEnv config) (lookup (TriggerMetadata config) ''passwordFromEnv'')
      else [])"

definition parse_parameters :: "ScalerConfig \<Rightarrow> string list" where
  "parse_parameters config =
     (case TriggerMetadata config ''parameters'' of
        Some val \<Rightarrow> splitAndTrimBySep val '';''
      | None \<Rightarrow> [])"

definition parse_targetValue :: "ScalerConfig \<Rightarrow> error + int" where
  "parse_targetValue config =
     (case GetFromAuthOrMeta config ''targetValue'' of
        Inl err \<Rightarrow> Inl err
      | Inr tv \<Rightarrow>
          (case Atoi tv of
             Inl err \<Rightarrow> Inl (ErrorfE ''targetValue parsing error %s'' err)
           | Inr n \<Rightarrow> Inr n))"

definition parseElasticsearchMetadata :: "ScalerConfig \<Rightarrow> error + elasticsearchMetadata" where
  "parseElasticsearchMetadata config =
     (case GetFromAuthOrMeta config ''addresses'' of
        Inl err \<Rightarrow> Inl err
      | Inr addrs \<Rightarrow>
     (case parse_unsafeSsl config of
        Inl err \<Rightarrow> Inl err
      | Inr ssl \<Rightarrow>
     (case GetFromAuthOrMeta config ''index'' of
        Inl err \<Rightarrow> Inl err
      | Inr index \<Rightarrow>
     (case GetFromAuthOrMeta config ''searchTemplateName'' of
        Inl err \<Rightarrow> Inl err
      | Inr name \<Rightarrow>
     (case GetFromAuthOrMeta config ''valueLocation'' of
        Inl err \<Rightarrow> Inl err
      | Inr loc \<Rightarrow>
     (case parse_targetValue config of
        Inl err \<Rightarrow> Inl err
      | Inr tv \<Rightarrow>
          Inr (meta0\<lparr>addresses := splitAndTrimBySep addrs '','',
                 unsafeSsl := ssl,
                 username := parse_username config,
                 password := parse_password config,
                 indexes := splitAndTrimBySep index '';'',
                 searchTemplateName := name,
                 parameters := parse_parameters config,
                 valueLocation := loc,
                 targetValue := tv\<rparr>)))))))"

section \<open>buildQuery\<close>

text \<open>
  The query document is a \<^verbatim>\<open>map[string]interface{}\<close>: the value at \<^verbatim>\<open>"id"\<close> is a
  string and the value at \<^verbatim>\<open>"params"\<close> is the map of the parameters. The loop over
  the parameter tokens stops with the panic of the first token whose split has no
  position 1.
\<close>

datatype json_value = JString string | JObject "string \<rightharpoonup> string"

type_synonym query = "string \<rightharpoonup> json_value"

fun buildQuery_range :: "(string \<rightharpoonup> string) \<Rightarrow> string list \<Rightarrow> error + (string \<rightharpoonup> string)" where
  "buildQuery_range ps [] = Inr ps"
| "buildQuery_range ps (p # rest) =
     (if p \<noteq> [] then
        (let kv = splitAndTrimBySep p '':''
         in if length kv \<le> 0 then Inl (IndexOutOfRange 0 (length kv))
            else if length kv \<le> 1 then Inl (IndexOutOfRange 1 (length kv))
            else buildQuery_range (ps(kv ! 0 \<mapsto> kv ! 1)) rest)
      else buildQuery_range ps rest)"

definition buildQuery :: "elasticsearchMetadata \<Rightarrow> error + query" where
  "buildQuery metadata =
     (case buildQuery_range Map.empty (parameters metadata) of
        Inl panic \<Rightarrow> Inl panic
      | Inr ps \<Rightarrow>
          (let query = [''id'' \<mapsto> JString (searchTemplateName metadata)]
           in if ps \<noteq> Map.empty then Inr (query(''params'' \<mapsto> JObject ps))
              else Inr query))"

section \<open>The scaler and its collaborators\<close>

text \<open>
  The search client, the JSON path library, the platform and the clock are outside the
  scaler. They are the fields of \<open>world\<close>: \<open>NewClient\<close> and \<open>Info\<close> make and ping a
  client of type \<open>'c\<close>, \<open>SearchTemplate\<close> runs the templated search of a query
  document on the indexes, \<open>ReadAll\<close> reads the body of a response of type \<open>'r\<close>,
  \<open>GetBytes\<close> is gjson, \<open>oor\<close> is the platform's conversion of a \<^verbatim>\<open>float64\<close> that
  does not fit \<^verbatim>\<open>int\<close>, and \<open>Now\<close> is the time of the call.
\<close>

record es_Config =
  Addresses :: "string list"
  Username :: string
  Password :: string
  InsecureSkipVerify :: bool

record ('c, 'r) world =
  NewClient :: "es_Config \<Rightarrow> error + 'c"
  Info :: "'c \<Rightarrow> error option"
  SearchTemplate :: "'c \<Rightarrow> query \<Rightarrow> string list \<Rightarrow> error + 'r"
  ReadAll :: "'r \<Rightarrow> error + string"
  GetBytes :: "string \<Rightarrow> string \<Rightarrow> Result"
  oor :: "float64 \<Rightarrow> 64 word"
  Now :: nat

record 'c elasticsearchScaler =
  metadata :: elasticsearchMetadata
  esClient :: 'c

definition newElasticsearchClient :: "('c, 'r) world \<Rightarrow> elasticsearchMetadata \<Rightarrow> error + 'c" where
  "newElasticsearchClient w meta =
     (let config = \<lparr>Addresses = addresses meta,
                     Username = (if username meta \<noteq> [] then username meta else []),
                     Password = (if password meta \<noteq> [] then password meta else []),
                     InsecureSkipVerify = unsafeSsl meta\<rparr>
      in case NewClient w config of
           Inl err \<Rightarrow> Inl err
         | Inr c \<Rightarrow> (case Info w c of Some err \<Rightarrow> Inl err | None \<Rightarrow> Inr c))"

definition NewElasticsearchScaler :: "('c, 'r) world \<Rightarrow> ScalerConfig \<Rightarrow> error + 'c elasticsearchScaler" where
  "NewElasticsearchScaler w config =
     (case parseElasticsearchMetadata config of
        Inl err \<Rightarrow> Inl (ErrorfE ''error parsing elasticsearch metadata: %s'' err)
      | Inr meta \<Rightarrow>
          (case newElasticsearchClient w meta of
             Inl err \<Rightarrow> Inl (ErrorfE ''error getting elasticsearch client: %s'' err)
           | Inr c \<Rightarrow> Inr \<lparr>metadata = meta, esClient = c\<rparr>))"

text \<open>\<^verbatim>\<open>Close\<close> returns \<^verbatim>\<open>nil\<close> and touches nothing: the scaler after it, and no error.\<close>

definition Close :: "'c elasticsearchScaler \<Rightarrow> 'c elasticsearchScaler \<times> error option" where
  "Close s = (s, None)"

text \<open>
  A panic is not an error value that \<^verbatim>\<open>err != nil\<close> sees: it unwinds through the
  callers as it is.
\<close>

fun is_panic :: "error \<Rightarrow> bool" where
  "is_panic (IndexOutOfRange i n) = True"
| "is_panic e = False"

definition getQueryResult :: "('c, 'r) world \<Rightarrow> 'c elasticsearchScaler \<Rightarrow> error + int" where
  "getQueryResult w s =
     (case buildQuery (metadata s) of
        Inl panic \<Rightarrow> Inl panic
      | Inr body \<Rightarrow>
     (case SearchTemplate w (esClient s) body (indexes (metadata s)) of
        Inl err \<Rightarrow> Inl err
      | Inr res \<Rightarrow>
     (case ReadAll w res of
        Inl err \<Rightarrow> Inl err
      | Inr b \<Rightarrow>
     (case getValueFromSearch (GetBytes w) (oor w) b (valueLocation (metadata s)) of
        Inl err \<Rightarrow> Inl err
      | Inr v \<Rightarrow> Inr v))))"

definition IsActive :: "('c, 'r) world \<Rightarrow> 'c elasticsearchScaler \<Rightarrow> error + bool" where
  "IsActive w s =
     (case getQueryResult w s of
        Inl err \<Rightarrow> Inl err
      | Inr messages \<Rightarrow> Inr (messages > 0))"

record ExternalMetricValue =
  MetricName :: string
  Value :: int
  Timestamp :: nat

definition GetMetrics ::
  "('c, 'r) world \<Rightarrow> 'c elasticsearchScaler \<Rightarrow> string \<Rightarrow> error + ExternalMetricValue list" where
  "GetMetrics w s metricName =
     (case getQueryResult w s of
        Inl err \<Rightarrow>
          (if is_panic err then Inl err
           else Inl (ErrorfE ''error inspecting elasticsearch: %s'' err))
      | Inr num \<Rightarrow> Inr ([] @ [\<lparr>MetricName = metricName, Value = num, Timestamp = Now w\<rparr>]))"

text \<open>
  The metric descriptor. \<^verbatim>\<open>kedautil.NormalizeString\<close> and
  \<^verbatim>\<open>GenerateMetricNameWithIndex\<close> are helpers of the package outside the scaler's file;
  they are the arguments \<open>nrm\<close> and \<open>gen\<close>. The quantity of the target is the integer it
  holds.
\<close>

datatype MetricTargetType = UtilizationMetricType | ValueMetricType | AverageValueMetricType





section \<open>The specification's reading of the splitting rules\<close>

text \<open>
  The specification trims "surrounding whitespace". Go's white space is the six ASCII
  characters below (and two beyond ASCII).
\<close>

definition is_whitespace :: "char \<Rightarrow> bool" where
  "is_whitespace c \<longleftrightarrow> c \<in> set [CHR 0x09, CHR 0x0A, CHR 0x0B, CHR 0x0C, CHR 0x0D, CHR '' '']"

definition trim_whitespace_spec :: "string \<Rightarrow> string" where
  "trim_whitespace_spec t = rev (dropWhile is_whitespace (rev (dropWhile is_whitespace t)))"

definition splitAndTrimBySep_spec :: "string \<Rightarrow> string \<Rightarrow> string list" where
  "splitAndTrimBySep_spec s sep = map trim_whitespace_spec (Split s sep)"

text \<open>
  The specification's query builder: a token is cut at its first colon, the key is what
  is before it and the value is all that is behind it; empty tokens are skipped and a
  later key overwrites an earlier one.
\<close>

definition key_spec :: "string \<Rightarrow> string" where
  "key_spec p = takeWhile (\<lambda>c. c \<noteq> CHR '':'') p"

definition value_spec :: "string \<Rightarrow> string" where
  "value_spec p = tl (dropWhile (\<lambda>c. c \<noteq> CHR '':'') p)"

fun params_spec :: "(string \<rightharpoonup> string) \<Rightarrow> string list \<Rightarrow> (string \<rightharpoonup> string)" where
  "params_spec ps [] = ps"
| "params_spec ps (p # rest) =
     (if p = [] then params_spec ps rest
      else params_spec (ps(key_spec p \<mapsto> value_spec p)) rest)"

definition buildQuery_spec :: "string \<Rightarrow> string list \<Rightarrow> query" where
  "buildQuery_spec templateName tokens =
     (let ps = params_spec Map.empty tokens
      in if ps = Map.empty then [''id'' \<mapsto> JString templateName]
         else [''id'' \<mapsto> JString templateName, ''params'' \<mapsto> JObject ps])"

text \<open>The same with the key and the value trimmed of spaces, as the splitting rule has it.\<close>

fun params_trimmed :: "(string \<rightharpoonup> string) \<Rightarrow> string list \<Rightarrow> (string \<rightharpoonup> string)" where
  "params_trimmed ps [] = ps"
| "params_trimmed ps (p # rest) =
     (if p = [] then params_trimmed ps rest
      else params_trimmed (ps(Trim (key_spec p) '' '' \<mapsto> Trim (value_spec p) '' '')) rest)"

definition well_formed_token :: "string \<Rightarrow> bool" where
  "well_formed_token p \<longleftrightarrow> count_list p (CHR '':'') = 1"


section \<open>Concrete configurations, scalers and worlds\<close>

text \<open>
  Two worlds with a client that connects: in \<open>w_refused\<close> the search fails, in
  \<open>w_three\<close> the response is the number 3.
\<close>

definition w_refused :: "(unit, string) world" where
  "w_refused = \<lparr>NewClient = (\<lambda>c. Inr ()), Info = (\<lambda>c. None),
     SearchTemplate = (\<lambda>c q ix. Inl (External ''connection refused'')),
     ReadAll = (\<lambda>r. Inr r),
     GetBytes = (\<lambda>b p. \<lparr>Type = gjNumber, Str = [], Num = Finite 3\<rparr>),
     oor = amd64_oor, Now = 0\<rparr>"

definition w_three :: "(unit, string) world" where
  "w_three = \<lparr>NewClient = (\<lambda>c. Inr ()), Info = (\<lambda>c. None),
     SearchTemplate = (\<lambda>c q ix. Inr ''3''),
     ReadAll = (\<lambda>r. Inr r),
     GetBytes = (\<lambda>b p. \<lparr>Type = gjNumber, Str = [], Num = Finite 3\<rparr>),
     oor = amd64_oor, Now = 0\<rparr>"

definition s_plain :: "unit elasticsearchScaler" where
  "s_plain = \<lparr>metadata = meta0\<lparr>searchTemplateName := ''tpl'', indexes := [''idx''],
      valueLocation := ''@this'', targetValue := 5\<rparr>, esClient = ()\<rparr>"

text \<open>A trigger with every mandatory field and the parameter token \<^verbatim>\<open>foo\<close>.\<close>

definition cfg_foo :: ScalerConfig where
  "cfg_foo = \<lparr>TriggerMetadata = [''addresses'' \<mapsto> ''http://es:9200'', ''index'' \<mapsto> ''idx'',
       ''searchTemplateName'' \<mapsto> ''tpl'', ''valueLocation'' \<mapsto> ''hits.total.value'',
       ''targetValue'' \<mapsto> ''5'', ''parameters'' \<mapsto> ''foo''],
     AuthParams = Map.empty, ResolvedEnv = Map.empty\<rparr>"

definition meta_foo :: elasticsearchMetadata where
  "meta_foo = \<lparr>addresses = [''http://es:9200''], unsafeSsl = False, username = [],
     password = [], indexes = [''idx''], searchTemplateName = ''tpl'', parameters = [''foo''],
     valueLocation = ''hits.total.value'', targetValue = 5\<rparr>"

text \<open>
  A trigger whose user name and password come from both sources, and the same trigger
  without auth parameters.
\<close>

definition cfg_both :: ScalerConfig where
  "cfg_both = \<lparr>TriggerMetadata = [''addresses'' \<mapsto> ''http://es:9200'', ''index'' \<mapsto> ''idx'',
       ''searchTemplateName'' \<mapsto> ''tpl'', ''valueLocation'' \<mapsto> ''hits.total.value'',
       ''targetValue'' \<mapsto> ''5'', ''username'' \<mapsto> ''meta-user'',
       ''passwordFromEnv'' \<mapsto> ''ES_PASS''],
     AuthParams = [''username'' \<mapsto> ''auth-user'', ''password'' \<mapsto> ''auth-pass''],
     ResolvedEnv = [''ES_PASS'' \<mapsto> ''env-pass'']\<rparr>"

definition meta_both :: elasticsearchMetadata where
  "meta_both = \<lparr>addresses = [''http://es:9200''], unsafeSsl = False, username = ''auth-user'',
     password = ''auth-pass'', indexes = [''idx''], searchTemplateName = ''tpl'', parameters = [],
     valueLocation = ''hits.total.value'', targetValue = 5\<rparr>"

definition cfg_meta_only :: ScalerConfig where
  "cfg_meta_only = cfg_both\<lparr>AuthParams := Map.empty\<rparr>"

definition meta_meta_only :: elasticsearchMetadata where
  "meta_meta_only = meta_both\<lparr>username := ''meta-user'', password := ''env-pass''\<rparr>"

section \<open>Facts about the library functions\<close>


lemma trim_range_take_drop:
  "trim_range i x = take i x @ map (\<lambda>t. Trim t '' '') (drop i x)"
proof (induction i x rule: trim_range.induct)
  case (1 i x)
  show ?case
  proof (cases "i < length x")
    case True
    have "trim_range i x = trim_range (Suc i) (x[i := Trim (x ! i) '' ''])"
      using True by (subst trim_range.simps) simp
    also have "\<dots> = take (Suc i) (x[i := Trim (x ! i) '' ''])
        @ map (\<lambda>t. Trim t '' '') (drop (Suc i) (x[i := Trim (x ! i) '' '']))"
      using "1.IH" [OF True] .
    also have "\<dots> = take i x @ map (\<lambda>t. Trim t '' '') (drop i x)"
      using True by (simp add: take_Suc_conv_app_nth Cons_nth_drop_Suc [symmetric])
    finally show ?thesis .
  next
    case False
    then show ?thesis by (subst trim_range.simps) simp
  qed
qed

lemma splitAndTrimBySep_map:
  "splitAndTrimBySep s sep = map (\<lambda>t. Trim t '' '') (Split s sep)"
  by (simp add: splitAndTrimBySep_def trim_range_take_drop)

lemma Index_Some_bound: "Index s sep = Some m \<Longrightarrow> m + length sep \<le> length s"
  by (induction s arbitrary: m) (auto split: if_splits dest: prefix_length_le)

lemma Index_Some_decomp:
  "Index s sep = Some m \<Longrightarrow> take m s @ sep @ drop (m + length sep) s = s"
proof (induction s arbitrary: m)
  case Nil
  then show ?case by (simp split: if_splits)
next
  case (Cons c cs)
  show ?case
  proof (cases "prefix sep (c # cs)")
    case True
    then obtain r where "c # cs = sep @ r" by (auto simp: prefix_def)
    moreover from True Cons.prems have "m = 0" by simp
    ultimately show ?thesis by simp
  next
    case False
    with Cons.prems obtain k where k: "Index cs sep = Some k" "m = Suc k" by auto
    from Cons.IH [OF k(1)] k(2) show ?thesis by simp
  qed
qed

lemma genSplit_not_Nil: "sep \<noteq> [] \<Longrightarrow> genSplit s sep \<noteq> []"
  by (subst genSplit.simps) (simp split: option.splits)

lemma Index_char:
  "Index s [c] = (if c \<in> set s then Some (length (takeWhile (\<lambda>x. x \<noteq> c) s)) else None)"
  by (induction s) auto

lemma genSplit_char_notin: "c \<notin> set s \<Longrightarrow> genSplit s [c] = [s]"
  by (subst genSplit.simps) (simp add: Index_char)

lemma genSplit_char_in:
  "c \<in> set s \<Longrightarrow>
   genSplit s [c] = takeWhile (\<lambda>x. x \<noteq> c) s # genSplit (tl (dropWhile (\<lambda>x. x \<noteq> c) s)) [c]"
proof -
  assume "c \<in> set s"
  let ?n = "length (takeWhile (\<lambda>x. x \<noteq> c) s)"
  have t: "take ?n s = takeWhile (\<lambda>x. x \<noteq> c) s"
    by (simp add: takeWhile_eq_take [symmetric])
  have d: "drop (?n + length [c]) s = tl (dropWhile (\<lambda>x. x \<noteq> c) s)"
    by (simp add: dropWhile_eq_drop tl_drop drop_Suc)
  have "genSplit s [c] = take ?n s # genSplit (drop (?n + length [c]) s) [c]"
    using \<open>c \<in> set s\<close> by (subst genSplit.simps) (simp add: Index_char)
  then show ?thesis by (simp only: t d)
qed

lemma length_genSplit_char: "length (genSplit s [c]) = Suc (count_list s c)"
proof (induction "length s" arbitrary: s rule: less_induct)
  case less
  show ?case
  proof (cases "c \<in> set s")
    case False
    then show ?thesis by (simp add: genSplit_char_notin)
  next
    case True
    let ?r = "tl (dropWhile (\<lambda>x. x \<noteq> c) s)"
    from True have dw: "dropWhile (\<lambda>x. x \<noteq> c) s = c # ?r"
      by (metis (mono_tags, lifting) dropWhile_eq_Nil_conv hd_dropWhile list.collapse)
    have s: "s = takeWhile (\<lambda>x. x \<noteq> c) s @ c # ?r"
      using dw by (metis takeWhile_dropWhile_id)
    have "length ?r < length s"
      by (metis (no_types, lifting) dw length_dropWhile_le impossible_Cons le_less_linear le_trans)
    from less [OF this] have "length (genSplit ?r [c]) = Suc (count_list ?r c)" .
    moreover have "count_list (takeWhile (\<lambda>x. x \<noteq> c) s) c = 0"
      by (metis (mono_tags, lifting) count_list_0_iff set_takeWhileD)
    then have "count_list s c = Suc (count_list ?r c)"
      by (subst s) simp
    ultimately show ?thesis using True by (simp add: genSplit_char_in)
  qed
qed

lemma Join_Cons: "ys \<noteq> [] \<Longrightarrow> Join (x # ys) sep = x @ sep @ Join ys sep"
  by (cases ys) simp_all

lemma Join_genSplit: "sep \<noteq> [] \<Longrightarrow> Join (genSplit s sep) sep = s"
proof (induction s sep rule: genSplit.induct)
  case (1 s sep)
  show ?case
  proof (cases "Index s sep")
    case None
    with "1.prems" show ?thesis by (subst genSplit.simps) simp
  next
    case (Some m)
    have "genSplit s sep = take m s # genSplit (drop (m + length sep) s) sep"
      using Some "1.prems" by (subst genSplit.simps) simp
    then have "Join (genSplit s sep) sep
        = take m s @ sep @ Join (genSplit (drop (m + length sep) s) sep) sep"
      using "1.prems" by (simp add: Join_Cons genSplit_not_Nil)
    also have "\<dots> = take m s @ sep @ drop (m + length sep) s"
      using "1.IH" [OF "1.prems" Some "1.prems"] by simp
    also have "\<dots> = s" using Some by (rule Index_Some_decomp)
    finally show ?thesis .
  qed
qed

lemma takeWhile_space: "takeWhile (\<lambda>c. c \<in> set '' '') xs = replicate (length (takeWhile (\<lambda>c. c \<in> set '' '') xs)) (CHR '' '')"
proof -
  have "\<forall>y\<in>set (takeWhile (\<lambda>c. c \<in> set '' '') xs). y = CHR '' ''"
    by (auto dest: set_takeWhileD)
  then show ?thesis by (simp add: replicate_length_same)
qed

lemma Trim_decomp:
  "\<exists>a b. t = replicate a (CHR '' '') @ Trim t '' '' @ replicate b (CHR '' '')"
proof -
  let ?P = "\<lambda>c. c \<in> set '' ''"
  let ?r = "TrimRight t '' ''"
  have "rev t = takeWhile ?P (rev t) @ dropWhile ?P (rev t)" by simp
  then have "t = rev (dropWhile ?P (rev t)) @ rev (takeWhile ?P (rev t))"
    by (metis rev_append rev_rev_ident)
  then have 1: "t = ?r @ rev (takeWhile ?P (rev t))" by (simp add: TrimRight_def)
  have 2: "?r = takeWhile ?P ?r @ Trim t '' ''"
    by (simp add: Trim_def TrimLeft_def)
  obtain a where a: "takeWhile ?P ?r = replicate a (CHR '' '')"
    using takeWhile_space by blast
  obtain b where b: "rev (takeWhile ?P (rev t)) = replicate b (CHR '' '')"
    by (metis takeWhile_space rev_replicate)
  from 1 2 a b have "t = replicate a (CHR '' '') @ Trim t '' '' @ replicate b (CHR '' '')"
    by (metis append.assoc)
  then show ?thesis by blast
qed

lemma Trim_ends:
  "Trim t '' '' \<noteq> [] \<Longrightarrow> hd (Trim t '' '') \<noteq> CHR '' '' \<and> last (Trim t '' '') \<noteq> CHR '' ''"
proof -
  let ?P = "\<lambda>c. c \<in> set '' ''"
  let ?r = "TrimRight t '' ''"
  assume ne: "Trim t '' '' \<noteq> []"
  then have "\<not> ?P (hd (Trim t '' ''))"
    unfolding Trim_def TrimLeft_def by (rule hd_dropWhile)
  then have h: "hd (Trim t '' '') \<noteq> CHR '' ''" by simp
  from ne have rne: "?r \<noteq> []" by (auto simp: Trim_def TrimLeft_def)
  then have "dropWhile ?P (rev t) \<noteq> []" by (simp add: TrimRight_def)
  then have "\<not> ?P (hd (dropWhile ?P (rev t)))" by (rule hd_dropWhile)
  then have "\<not> ?P (last ?r)"
    using rne by (simp add: TrimRight_def last_rev)
  moreover have "last (Trim t '' '') = last ?r"
    using ne by (metis Trim_def TrimLeft_def last_appendR takeWhile_dropWhile_id)
  ultimately show ?thesis using h by simp
qed

lemma splitAndTrimBySep_example: "splitAndTrimBySep ''  a ; b;c  '' '';'' = [''a'', ''b'', ''c'']"
  by (simp add: splitAndTrimBySep_map Split_def genSplit_char_in genSplit_char_notin
      Trim_def TrimLeft_def TrimRight_def)

section \<open>Splitting and trimming\<close>

text \<open>
  C8 (as the specification states it). The specification has every token trimmed of
  surrounding whitespace. A tab is whitespace, and \<^verbatim>\<open>strings.Trim(x, " ")\<close> keeps it:
  on the input of a tab, \<open>a\<close>, a semicolon and \<open>b\<close> the first token of the code
  still starts with the tab.
\<close>

theorem splitAndTrimBySep_keeps_tab:
  "splitAndTrimBySep [CHR 0x09, CHR ''a'', CHR '';'', CHR ''b''] '';''
   \<noteq> splitAndTrimBySep_spec [CHR 0x09, CHR ''a'', CHR '';'', CHR ''b''] '';''"
  by (simp add: splitAndTrimBySep_map splitAndTrimBySep_spec_def Split_def
      genSplit_char_in genSplit_char_notin Trim_def TrimLeft_def TrimRight_def
      trim_whitespace_spec_def is_whitespace_def)

text \<open>
  C8 (amended). For every input and separator, \<open>splitAndTrimBySep\<close> returns the
  tokens of \<^verbatim>\<open>strings.Split\<close>, in their order and as many as there are (empty tokens
  stay where they are), each without its leading and trailing space characters
  (U+0020 only): a token is some spaces, its trimmed form, and some spaces, and a trimmed
  form that is not empty neither starts nor ends with a space. For a non-empty separator
  the tokens of \<^verbatim>\<open>Split\<close> joined by the separator are the input. The string
  \<^verbatim>\<open>"  a ; b;c  "\<close> split on \<^verbatim>\<open>";"\<close> gives \<open>a\<close>, \<open>b\<close>, \<open>c\<close>.
\<close>

theorem splitAndTrimBySep_trims_spaces:
  "splitAndTrimBySep s sep = map (\<lambda>t. Trim t '' '') (Split s sep)
   \<and> length (splitAndTrimBySep s sep) = length (Split s sep)
   \<and> (sep \<noteq> [] \<longrightarrow> Join (Split s sep) sep = s)
   \<and> (\<forall>t. (\<exists>a b. t = replicate a (CHR '' '') @ Trim t '' '' @ replicate b (CHR '' ''))
          \<and> (Trim t '' '' \<noteq> [] \<longrightarrow>
               hd (Trim t '' '') \<noteq> CHR '' '' \<and> last (Trim t '' '') \<noteq> CHR '' ''))
   \<and> splitAndTrimBySep ''  a ; b;c  '' '';'' = [''a'', ''b'', ''c'']"
proof -
  have "sep \<noteq> [] \<longrightarrow> Join (Split s sep) sep = s"
    by (simp add: Split_def Join_genSplit)
  moreover have "\<forall>t. (\<exists>a b. t = replicate a (CHR '' '') @ Trim t '' '' @ replicate b (CHR '' ''))
      \<and> (Trim t '' '' \<noteq> [] \<longrightarrow>
           hd (Trim t '' '') \<noteq> CHR '' '' \<and> last (Trim t '' '') \<noteq> CHR '' '')"
    using Trim_decomp Trim_ends by blast
  ultimately show ?thesis
    using splitAndTrimBySep_map [of s sep] splitAndTrimBySep_example by simp
qed

theorem splitAndTrimBySep_trims_spaces_witness:
  "'';'' \<noteq> [] \<and> Join (Split ''x ; y'' '';'') '';'' = ''x ; y''
   \<and> splitAndTrimBySep ''x ; y'' '';'' = [''x'', ''y'']
   \<and> Trim ''x '' '' '' \<noteq> [] \<and> last (Trim ''x '' '' '') \<noteq> CHR '' ''"
  using splitAndTrimBySep_trims_spaces [of "''x ; y''" "'';''"]
  by (simp add: Split_def genSplit_char_in genSplit_char_notin Trim_def TrimLeft_def TrimRight_def)

section \<open>Close\<close>

text \<open>
  C10. \<open>Close\<close> returns no error, on every scaler and however often it is called, and
  the scaler after it is the scaler before it.
\<close>

theorem Close_succeeds_unchanged:
  "snd (Close s) = None \<and> fst (Close s) = s
   \<and> ((\<lambda>t. fst (Close t)) ^^ n) s = s
   \<and> snd (Close (((\<lambda>t. fst (Close t)) ^^ n) s)) = None"
proof -
  have "((\<lambda>t. fst (Close t)) ^^ n) s = s"
    by (induction n) (simp_all add: Close_def)
  then show ?thesis by (simp add: Close_def)
qed

section \<open>The value extractor\<close>

lemma truncate_rat_towards_zero:
  "\<bar>of_int (truncate_rat q)\<bar> \<le> \<bar>q\<bar> \<and> \<bar>q\<bar> < \<bar>of_int (truncate_rat q)\<bar> + 1
   \<and> (0 \<le> q \<longrightarrow> 0 \<le> truncate_rat q) \<and> (q \<le> 0 \<longrightarrow> truncate_rat q \<le> 0)"
proof (cases "0 \<le> q")
  case True
  then show ?thesis unfolding truncate_rat_def by (auto simp: abs_if) linarith+
next
  case False
  then have n: "0 < - q" by simp
  have 1: "of_int \<lfloor>- q\<rfloor> \<le> - q" by (rule of_int_floor_le)
  have 2: "- q < of_int \<lfloor>- q\<rfloor> + 1" by linarith
  have 3: "0 \<le> \<lfloor>- q\<rfloor>" using n by simp
  have t: "truncate_rat q = - \<lfloor>- q\<rfloor>" using False by (simp add: truncate_rat_def)
  have a: "\<bar>of_int (truncate_rat q) :: rat\<bar> = of_int \<lfloor>- q\<rfloor>"
    using 3 by (simp add: t)
  have b: "\<bar>q\<bar> = - q" using False by simp
  from 1 2 3 False show ?thesis unfolding a b by (simp add: t)
qed

text \<open>
  C1. Whatever the response and the path: when gjson finds nothing at the path (type
  \<^verbatim>\<open>Null\<close>), or a boolean (\<^verbatim>\<open>True\<close>, \<^verbatim>\<open>False\<close>), or an array or object
  (\<^verbatim>\<open>JSON\<close>), \<open>getValueFromSearch\<close> returns the error of the message
  \<open>errorMsg\<close> with the name of that type; when it finds a string that \<^verbatim>\<open>Atoi\<close> does
  not accept, it returns that error with the string itself; and in none of these cases
  does it return a value.
\<close>

theorem getValueFromSearch_invalid_type:
  "(Type (G body loc) \<in> {gjNull, gjFalse, gjTrue, gjJSON} \<longrightarrow>
      getValueFromSearch G oorf body loc
        = Inl (ErrorfS errorMsg (Type_String (Type (G body loc)))))
   \<and> (Type (G body loc) = gjString \<and> (\<forall>k. Atoi (Str (G body loc)) \<noteq> Inr k) \<longrightarrow>
      getValueFromSearch G oorf body loc = Inl (ErrorfS errorMsg (Str (G body loc))))
   \<and> (Type (G body loc) \<in> {gjNull, gjFalse, gjTrue, gjJSON} \<or>
       Type (G body loc) = gjString \<and> (\<forall>k. Atoi (Str (G body loc)) \<noteq> Inr k) \<longrightarrow>
      (\<forall>v. getValueFromSearch G oorf body loc \<noteq> Inr v))"
  by (auto simp: getValueFromSearch_def value_of_Result_def split: sum.splits)

theorem getValueFromSearch_invalid_type_witness:
  "getValueFromSearch (\<lambda>b p. \<lparr>Type = gjNull, Str = [], Num = Finite 0\<rparr>)
       amd64_oor ''{}'' ''hits.total''
     = Inl (ErrorfS errorMsg ''Null'')
   \<and> getValueFromSearch (\<lambda>b p. \<lparr>Type = gjString, Str = ''abc'', Num = Finite 0\<rparr>)
       amd64_oor ''{}'' ''hits.total''
     = Inl (ErrorfS errorMsg ''abc'')"
  using getValueFromSearch_invalid_type
      [of "\<lambda>b p. \<lparr>Type = gjNull, Str = [], Num = Finite 0\<rparr>" "''{}''" "''hits.total''" amd64_oor]
    getValueFromSearch_invalid_type
      [of "\<lambda>b p. \<lparr>Type = gjString, Str = ''abc'', Num = Finite 0\<rparr>" "''{}''" "''hits.total''"
        amd64_oor]
  by (simp add: Atoi_def)

text \<open>
  C2 (as the specification states it). The number \<^verbatim>\<open>1e19\<close> is a JSON number whose
  integral part, ten to the nineteenth, is beyond \<^verbatim>\<open>int\<close>: what \<^verbatim>\<open>int(r.Num)\<close>
  returns is not that integer.
\<close>

theorem getValueFromSearch_number_beyond_int:
  "getValueFromSearch (\<lambda>b p. \<lparr>Type = gjNumber, Str = [], Num = Finite (10 ^ 19)\<rparr>)
       amd64_oor ''1e19'' ''@this''
   \<noteq> Inr (truncate_rat (10 ^ 19))"
  by (simp add: getValueFromSearch_def value_of_Result_def float64_to_int_def truncate_rat_def
      minInt_def maxInt_def amd64_oor_def)

text \<open>
  C2 (amended). The claim is about the \<^verbatim>\<open>float64\<close> that gjson holds for the number
  it finds (\<^verbatim>\<open>r.Num\<close>, the nearest \<^verbatim>\<open>float64\<close> to the JSON text, which is not always
  the number written there). When that \<^verbatim>\<open>float64\<close> is finite and its integral part
  (the value without its fraction, towards zero, not rounded) fits \<^verbatim>\<open>int\<close>,
  \<open>getValueFromSearch\<close> returns that integral part; when gjson finds a string that
  \<^verbatim>\<open>Atoi\<close> reads as \<open>k\<close>, it returns \<open>k\<close>. The \<^verbatim>\<open>float64\<close> 42 and the string
  \<^verbatim>\<open>"42"\<close> give 42.
\<close>

theorem getValueFromSearch_value:
  "(\<forall>q. Type (G body loc) = gjNumber \<and> Num (G body loc) = Finite q
        \<and> minInt \<le> truncate_rat q \<and> truncate_rat q \<le> maxInt \<longrightarrow>
      getValueFromSearch G oorf body loc = Inr (truncate_rat q))
   \<and> (\<forall>k. Type (G body loc) = gjString \<and> Atoi (Str (G body loc)) = Inr k \<longrightarrow>
      getValueFromSearch G oorf body loc = Inr k)
   \<and> (\<forall>q. \<bar>of_int (truncate_rat q)\<bar> \<le> \<bar>q\<bar> \<and> \<bar>q\<bar> < \<bar>of_int (truncate_rat q)\<bar> + 1
        \<and> (0 \<le> q \<longrightarrow> 0 \<le> truncate_rat q) \<and> (q \<le> 0 \<longrightarrow> truncate_rat q \<le> 0))
   \<and> truncate_rat 42 = 42 \<and> Atoi ''42'' = Inr 42"
proof -
  have "truncate_rat 42 = 42" by (simp add: truncate_rat_def)
  moreover have "Atoi ''42'' = Inr 42" by (simp add: Atoi_def minInt_def maxInt_def)
  ultimately show ?thesis
    using truncate_rat_towards_zero
    by (simp add: getValueFromSearch_def value_of_Result_def float64_to_int_def)
qed

theorem getValueFromSearch_value_witness:
  "getValueFromSearch (\<lambda>b p. \<lparr>Type = gjNumber, Str = [], Num = Finite 42\<rparr>)
       amd64_oor ''42'' ''@this'' = Inr 42
   \<and> getValueFromSearch (\<lambda>b p. \<lparr>Type = gjString, Str = ''42'', Num = Finite 0\<rparr>)
       amd64_oor ''42'' ''@this'' = Inr 42
   \<and> getValueFromSearch (\<lambda>b p. \<lparr>Type = gjNumber, Str = [], Num = Finite (- 7 / 2)\<rparr>)
       amd64_oor ''-3.5'' ''@this'' = Inr (- 3)"
proof -
  note a = getValueFromSearch_value
      [of "\<lambda>b p. \<lparr>Type = gjNumber, Str = [], Num = Finite 42\<rparr>" "''42''" "''@this''" amd64_oor,
       THEN conjunct1, rule_format, of 42]
  note b = getValueFromSearch_value
      [of "\<lambda>b p. \<lparr>Type = gjString, Str = ''42'', Num = Finite 0\<rparr>" "''42''" "''@this''" amd64_oor,
       THEN conjunct2, THEN conjunct1, rule_format, of 42]
  note c = getValueFromSearch_value
      [of "\<lambda>b p. \<lparr>Type = gjNumber, Str = [], Num = Finite (- 7 / 2)\<rparr>" "''-3.5''" "''@this''"
        amd64_oor, THEN conjunct1, rule_format, of "- 7 / 2"]
  have "\<lfloor>7 / 2 :: rat\<rfloor> = 3" by (rule floor_unique) simp_all
  then have t: "truncate_rat 42 = 42" "truncate_rat (- 7 / 2) = - 3"
    by (simp_all add: truncate_rat_def)
  have "Atoi ''42'' = Inr 42" by (simp add: Atoi_def minInt_def maxInt_def)
  with a b c t show ?thesis by (simp add: minInt_def maxInt_def)
qed

section \<open>Evaluating the scaler on the concrete inputs\<close>

lemmas parse_eval = parseElasticsearchMetadata_def GetFromAuthOrMeta_def lookup_def
  parse_unsafeSsl_def parse_username_def parse_password_def parse_parameters_def
  parse_targetValue_def Atoi_def minInt_def maxInt_def splitAndTrimBySep_map Split_def
  genSplit_char_in genSplit_char_notin Trim_def TrimLeft_def TrimRight_def meta0_def
  defaultUnsafeSsl_def

lemma parse_cfg_foo: "parseElasticsearchMetadata cfg_foo = Inr meta_foo"
  by (simp add: cfg_foo_def meta_foo_def parse_eval)

lemma parse_cfg_both: "parseElasticsearchMetadata cfg_both = Inr meta_both"
  by (simp add: cfg_both_def meta_both_def parse_eval)

lemma parse_cfg_meta_only: "parseElasticsearchMetadata cfg_meta_only = Inr meta_meta_only"
  by (simp add: cfg_meta_only_def cfg_both_def meta_meta_only_def meta_both_def parse_eval)

lemma getQueryResult_w_refused:
  "getQueryResult w_refused s_plain = Inl (External ''connection refused'')"
  by (simp add: getQueryResult_def buildQuery_def w_refused_def s_plain_def meta0_def)

lemma getQueryResult_w_three: "getQueryResult w_three s_plain = Inr 3"
  by (simp add: getQueryResult_def buildQuery_def w_three_def s_plain_def meta0_def
      getValueFromSearch_def value_of_Result_def float64_to_int_def truncate_rat_def
      minInt_def maxInt_def)

section \<open>The activity predicate and the metric value\<close>

text \<open>
  C6 (as the specification states it). When the search is refused, \<open>IsActive\<close> and
  \<open>GetMetrics\<close> both fail, and not with the identical error: \<open>GetMetrics\<close> makes a new
  one with \<^verbatim>\<open>fmt.Errorf\<close>.
\<close>

theorem IsActive_GetMetrics_errors_differ:
  "isl (IsActive w_refused s_plain) \<and> isl (GetMetrics w_refused s_plain ''m'')
   \<and> projl (IsActive w_refused s_plain) \<noteq> projl (GetMetrics w_refused s_plain ''m'')"
  by (simp add: IsActive_def GetMetrics_def getQueryResult_w_refused)

text \<open>
  C6 (amended). When the pipeline \<open>getQueryResult\<close> yields the integer \<open>v\<close>,
  \<open>IsActive\<close> returns whether \<open>v\<close> is greater than zero (false at zero) and
  \<open>GetMetrics\<close> reports \<open>v\<close>. When the pipeline fails with the error \<open>e\<close>,
  \<open>IsActive\<close> returns \<open>e\<close> unchanged, and \<open>GetMetrics\<close> returns the error
  \<^verbatim>\<open>"error inspecting elasticsearch: %s"\<close> made of \<open>e\<close> (a panic passes through both as
  it is); neither turns the failure into a value.
\<close>

theorem IsActive_GetMetrics_pipeline:
  "(\<forall>v. getQueryResult w s = Inr v \<longrightarrow>
       IsActive w s = Inr (0 < v)
       \<and> GetMetrics w s n = Inr [\<lparr>MetricName = n, Value = v, Timestamp = Now w\<rparr>])
   \<and> (\<forall>e. getQueryResult w s = Inl e \<longrightarrow>
       IsActive w s = Inl e
       \<and> GetMetrics w s n
           = Inl (if is_panic e then e else ErrorfE ''error inspecting elasticsearch: %s'' e))"
  by (simp add: IsActive_def GetMetrics_def)

theorem IsActive_GetMetrics_pipeline_witness:
  "IsActive w_three s_plain = Inr True
   \<and> GetMetrics w_three s_plain ''m'' = Inr [\<lparr>MetricName = ''m'', Value = 3, Timestamp = 0\<rparr>]
   \<and> IsActive w_refused s_plain = Inl (External ''connection refused'')
   \<and> GetMetrics w_refused s_plain ''m''
       = Inl (ErrorfE ''error inspecting elasticsearch: %s'' (External ''connection refused''))"
  using IsActive_GetMetrics_pipeline [of w_three s_plain "''m''"]
    IsActive_GetMetrics_pipeline [of w_refused s_plain "''m''"]
  by (simp add: getQueryResult_w_three getQueryResult_w_refused) (simp add: w_three_def)

section \<open>Credentials\<close>

text \<open>
  C9. Whenever the mandatory fields resolve (the addresses, the index, the template
  name, the value location and a target value that \<^verbatim>\<open>Atoi\<close> reads) and
  \<^verbatim>\<open>unsafeSsl\<close>, if given, is a boolean, \<open>parseElasticsearchMetadata\<close> returns a
  metadata, and in it the user name is the one of the auth parameters when they hold the
  key, and the one of the trigger metadata only when they do not; the password is the one
  of the auth parameters when they give one (a non-empty one), and only otherwise the
  value of the environment variable that the trigger metadata name in
  \<^verbatim>\<open>passwordFromEnv\<close>.
\<close>

theorem credentials_auth_first:
  assumes "GetFromAuthOrMeta config ''addresses'' = Inr a"
    and "\<forall>v. TriggerMetadata config ''unsafeSsl'' = Some v \<longrightarrow> (\<exists>b. ParseBool v = Inr b)"
    and "GetFromAuthOrMeta config ''index'' = Inr i"
    and "GetFromAuthOrMeta config ''searchTemplateName'' = Inr n"
    and "GetFromAuthOrMeta config ''valueLocation'' = Inr l"
    and "GetFromAuthOrMeta config ''targetValue'' = Inr tv"
    and "Atoi tv = Inr k"
  shows "\<exists>meta. parseElasticsearchMetadata config = Inr meta
   \<and> (\<forall>u. AuthParams config ''username'' = Some u \<longrightarrow> username meta = u)
   \<and> (AuthParams config ''username'' = None \<longrightarrow>
        username meta = lookup (TriggerMetadata config) ''username'')
   \<and> (lookup (AuthParams config) ''password'' \<noteq> [] \<longrightarrow>
        password meta = lookup (AuthParams config) ''password'')
   \<and> (lookup (AuthParams config) ''password'' = [] \<longrightarrow>
        password meta =
          (if lookup (TriggerMetadata config) ''passwordFromEnv'' \<noteq> []
           then lookup (ResolvedEnv config) (lookup (TriggerMetadata config) ''passwordFromEnv'')
           else []))"
proof -
  from assms(2) obtain ssl where ssl: "parse_unsafeSsl config = Inr ssl"
    by (cases "TriggerMetadata config ''unsafeSsl''") (auto simp: parse_unsafeSsl_def)
  from assms(6,7) have t: "parse_targetValue config = Inr k"
    by (simp add: parse_targetValue_def)
  define meta where "meta = meta0\<lparr>addresses := splitAndTrimBySep a '','',
                 unsafeSsl := ssl,
                 username := parse_username config,
                 password := parse_password config,
                 indexes := splitAndTrimBySep i '';'',
                 searchTemplateName := n,
                 parameters := parse_parameters config,
                 valueLocation := l,
                 targetValue := k\<rparr>"
  have p: "parseElasticsearchMetadata config = Inr meta"
    by (simp add: parseElasticsearchMetadata_def assms(1,3,4,5) ssl t meta_def)
  have u: "username meta = parse_username config"
    and pw: "password meta = parse_password config"
    by (simp_all add: meta_def)
  have c1: "\<forall>u. AuthParams config ''username'' = Some u \<longrightarrow> username meta = u"
    unfolding u by (simp add: parse_username_def)
  have c2: "AuthParams config ''username'' = None \<longrightarrow>
        username meta = lookup (TriggerMetadata config) ''username''"
    unfolding u by (simp add: parse_username_def lookup_def split: option.splits)
  have c3: "lookup (AuthParams config) ''password'' \<noteq> [] \<longrightarrow>
        password meta = lookup (AuthParams config) ''password''"
    unfolding pw by (simp add: parse_password_def)
  have c4: "lookup (AuthParams config) ''password'' = [] \<longrightarrow>
        password meta =
          (if lookup (TriggerMetadata config) ''passwordFromEnv'' \<noteq> []
           then lookup (ResolvedEnv config) (lookup (TriggerMetadata config) ''passwordFromEnv'')
           else [])"
    unfolding pw by (simp add: parse_password_def)
  from p c1 c2 c3 c4 show ?thesis by (intro exI [of _ meta] conjI)
qed

theorem credentials_auth_first_witness:
  "parseElasticsearchMetadata cfg_both = Inr meta_both
   \<and> AuthParams cfg_both ''username'' = Some ''auth-user''
   \<and> TriggerMetadata cfg_both ''username'' = Some ''meta-user''
   \<and> username meta_both = ''auth-user'' \<and> password meta_both = ''auth-pass''
   \<and> parseElasticsearchMetadata cfg_meta_only = Inr meta_meta_only
   \<and> username meta_meta_only = ''meta-user'' \<and> password meta_meta_only = ''env-pass''"
proof -
  have h1: "GetFromAuthOrMeta cfg_both ''addresses'' = Inr ''http://es:9200''"
    and h2: "\<forall>v. TriggerMetadata cfg_both ''unsafeSsl'' = Some v \<longrightarrow> (\<exists>b. ParseBool v = Inr b)"
    and h3: "GetFromAuthOrMeta cfg_both ''index'' = Inr ''idx''"
    and h4: "GetFromAuthOrMeta cfg_both ''searchTemplateName'' = Inr ''tpl''"
    and h5: "GetFromAuthOrMeta cfg_both ''valueLocation'' = Inr ''hits.total.value''"
    and h6: "GetFromAuthOrMeta cfg_both ''targetValue'' = Inr ''5''"
    by (simp_all add: cfg_both_def GetFromAuthOrMeta_def lookup_def)
  have g1: "GetFromAuthOrMeta cfg_meta_only ''addresses'' = Inr ''http://es:9200''"
    and g2: "\<forall>v. TriggerMetadata cfg_meta_only ''unsafeSsl'' = Some v \<longrightarrow> (\<exists>b. ParseBool v = Inr b)"
    and g3: "GetFromAuthOrMeta cfg_meta_only ''index'' = Inr ''idx''"
    and g4: "GetFromAuthOrMeta cfg_meta_only ''searchTemplateName'' = Inr ''tpl''"
    and g5: "GetFromAuthOrMeta cfg_meta_only ''valueLocation'' = Inr ''hits.total.value''"
    and g6: "GetFromAuthOrMeta cfg_meta_only ''targetValue'' = Inr ''5''"
    by (simp_all add: cfg_meta_only_def cfg_both_def GetFromAuthOrMeta_def lookup_def)
  have h7: "Atoi ''5'' = Inr 5" by (simp add: Atoi_def minInt_def maxInt_def)
  from credentials_auth_first [OF h1 h2 h3 h4 h5 h6 h7]
  have a: "username meta_both = ''auth-user'' \<and> password meta_both = ''auth-pass''"
    by (simp add: parse_cfg_both) (simp add: cfg_both_def lookup_def)
  from credentials_auth_first [OF g1 g2 g3 g4 g5 g6 h7]
  have b: "username meta_meta_only = ''meta-user'' \<and> password meta_meta_only = ''env-pass''"
    by (simp add: parse_cfg_meta_only) (simp add: cfg_meta_only_def cfg_both_def lookup_def)
  from a b parse_cfg_both parse_cfg_meta_only show ?thesis
    by (simp add: cfg_both_def)
qed

section \<open>The metric descriptor\<close>







section \<open>The query builder\<close>

lemma length_splitAndTrimBySep_colon:
  "length (splitAndTrimBySep p '':'') = Suc (count_list p (CHR '':''))"
  by (simp add: splitAndTrimBySep_map Split_def length_genSplit_char)

lemma buildQuery_range_step:
  "buildQuery_range ps (p # rest) =
     (if p = [] then buildQuery_range ps rest
      else if CHR '':'' \<in> set p
        then buildQuery_range
               (ps(splitAndTrimBySep p '':'' ! 0 \<mapsto> splitAndTrimBySep p '':'' ! 1)) rest
      else Inl (IndexOutOfRange 1 1))"
proof -
  have "CHR '':'' \<notin> set p \<Longrightarrow> count_list p (CHR '':'') = 0"
    by (simp add: count_list_0_iff)
  moreover have "CHR '':'' \<in> set p \<Longrightarrow> 0 < count_list p (CHR '':'')"
    using count_list_0_iff [of p "CHR '':''"] by auto
  moreover have "splitAndTrimBySep p '':'' \<noteq> []"
    using length_splitAndTrimBySep_colon [of p] by auto
  ultimately show ?thesis
    by (auto simp: Let_def length_splitAndTrimBySep_colon)
qed

lemma buildQuery_range_Inr_iff:
  "(\<exists>ps'. buildQuery_range ps toks = Inr ps')
   \<longleftrightarrow> (\<forall>p\<in>set toks. p \<noteq> [] \<longrightarrow> CHR '':'' \<in> set p)"
proof (induction toks arbitrary: ps)
  case Nil
  show ?case by simp
next
  case (Cons p rest)
  show ?case
    unfolding buildQuery_range_step using Cons.IH by simp
qed

lemma buildQuery_range_Inl:
  "buildQuery_range ps toks = Inl e \<Longrightarrow> e = IndexOutOfRange 1 1"
proof (induction toks arbitrary: ps)
  case Nil
  then show ?case by simp
next
  case (Cons p rest)
  from Cons.prems show ?case
    unfolding buildQuery_range_step using Cons.IH by (simp split: if_splits)
qed

lemma buildQuery_Inr_iff:
  "(\<exists>q. buildQuery md = Inr q)
   \<longleftrightarrow> (\<forall>p\<in>set (parameters md). p \<noteq> [] \<longrightarrow> CHR '':'' \<in> set p)"
proof -
  have "(\<exists>q. buildQuery md = Inr q)
      \<longleftrightarrow> (\<exists>ps'. buildQuery_range Map.empty (parameters md) = Inr ps')"
    by (cases "buildQuery_range Map.empty (parameters md)")
      (simp_all add: buildQuery_def Let_def)
  then show ?thesis by (simp only: buildQuery_range_Inr_iff)
qed

lemma buildQuery_Inl: "buildQuery md = Inl e \<Longrightarrow> e = IndexOutOfRange 1 1"
  by (cases "buildQuery_range Map.empty (parameters md)")
    (auto simp: buildQuery_def Let_def dest: buildQuery_range_Inl split: if_splits)

lemma buildQuery_meta_foo: "buildQuery meta_foo = Inl (IndexOutOfRange 1 1)"
  by (simp add: buildQuery_def meta_foo_def buildQuery_range_step
      del: buildQuery_range.simps(2))

text \<open>
  C5. \<open>buildQuery\<close> reads positions 0 and 1 of the colon-split of every non-empty
  token. It returns a document exactly when every non-empty token has a colon; otherwise
  it stops with the panic of position 1 in a slice of length 1. Construction does not
  check the tokens: the configuration \<open>cfg_foo\<close> is parsed into the metadata
  \<open>meta_foo\<close> with the token \<^verbatim>\<open>foo\<close>, and \<open>buildQuery\<close> panics on it.
\<close>

theorem buildQuery_index_in_bounds:
  "((\<exists>q. buildQuery md = Inr q)
      \<longleftrightarrow> (\<forall>p\<in>set (parameters md). p \<noteq> [] \<longrightarrow> CHR '':'' \<in> set p))
   \<and> (\<forall>e. buildQuery md = Inl e \<longrightarrow> e = IndexOutOfRange 1 1)
   \<and> parseElasticsearchMetadata cfg_foo = Inr meta_foo
   \<and> parameters meta_foo = [''foo'']
   \<and> buildQuery meta_foo = Inl (IndexOutOfRange 1 1)"
  using buildQuery_Inr_iff [of md] buildQuery_Inl [of md] parse_cfg_foo buildQuery_meta_foo
  by (simp add: meta_foo_def)

theorem buildQuery_index_in_bounds_witness:
  "(\<exists>q. buildQuery (meta0\<lparr>parameters := [''a:b'', '''']\<rparr>) = Inr q)
   \<and> buildQuery meta_foo = Inl (IndexOutOfRange 1 1)
   \<and> buildQuery meta_foo \<noteq> Inl (IndexOutOfRange 0 1)"
  using buildQuery_index_in_bounds [of "meta0\<lparr>parameters := [''a:b'', '''']\<rparr>"]
    buildQuery_index_in_bounds [of meta_foo]
  by (simp add: meta0_def meta_foo_def)

text \<open>
  C3. The configuration \<open>cfg_foo\<close> has the parameter token \<^verbatim>\<open>foo\<close>, which is no
  \<^verbatim>\<open>key:value\<close> pair. Construction succeeds on it with the token in the metadata, and
  the first poll of the scaler panics.
\<close>

theorem malformed_parameter_accepted:
  "NewElasticsearchScaler w_three cfg_foo = Inr \<lparr>metadata = meta_foo, esClient = ()\<rparr>
   \<and> parameters meta_foo = [''foo'']
   \<and> IsActive w_three \<lparr>metadata = meta_foo, esClient = ()\<rparr> = Inl (IndexOutOfRange 1 1)"
  by (simp add: NewElasticsearchScaler_def parse_cfg_foo newElasticsearchClient_def
      IsActive_def getQueryResult_def buildQuery_meta_foo)
    (simp add: w_three_def meta_foo_def)

lemma genSplit_char_once:
  assumes cnt: "count_list p c = 1"
  shows "genSplit p [c] = [takeWhile (\<lambda>x. x \<noteq> c) p, tl (dropWhile (\<lambda>x. x \<noteq> c) p)]"
proof -
  let ?r = "tl (dropWhile (\<lambda>x. x \<noteq> c) p)"
  from cnt have mem: "c \<in> set p"
    using count_list_0_iff [of p c] by auto
  then have dw: "dropWhile (\<lambda>x. x \<noteq> c) p = c # ?r"
    by (metis (mono_tags, lifting) dropWhile_eq_Nil_conv hd_dropWhile list.collapse)
  have p: "p = takeWhile (\<lambda>x. x \<noteq> c) p @ c # ?r"
    using dw by (metis takeWhile_dropWhile_id)
  have "count_list (takeWhile (\<lambda>x. x \<noteq> c) p) c = 0"
    by (metis (mono_tags, lifting) count_list_0_iff set_takeWhileD)
  then have "count_list p c = Suc (count_list ?r c)"
    by (subst p) simp
  with cnt have "count_list ?r c = 0" by simp
  then have "c \<notin> set ?r" by (simp add: count_list_0_iff)
  then have "genSplit ?r [c] = [?r]" by (rule genSplit_char_notin)
  with mem show ?thesis
    by (simp add: genSplit_char_in)
qed

lemma well_formed_split:
  assumes "well_formed_token p"
  shows "splitAndTrimBySep p '':'' = [Trim (key_spec p) '' '', Trim (value_spec p) '' '']"
proof -
  from assms have "count_list p (CHR '':'') = 1" by (simp add: well_formed_token_def)
  then have "genSplit p '':''
      = [takeWhile (\<lambda>x. x \<noteq> CHR '':'') p, tl (dropWhile (\<lambda>x. x \<noteq> CHR '':'') p)]"
    by (rule genSplit_char_once)
  then show ?thesis
    by (simp add: splitAndTrimBySep_map Split_def key_spec_def value_spec_def)
qed

lemma buildQuery_range_well_formed:
  "\<forall>p\<in>set toks. p \<noteq> [] \<longrightarrow> well_formed_token p \<Longrightarrow>
   buildQuery_range ps toks = Inr (params_trimmed ps toks)"
proof (induction toks arbitrary: ps)
  case Nil
  show ?case by simp
next
  case (Cons p rest)
  from Cons.prems have rest: "\<forall>p\<in>set rest. p \<noteq> [] \<longrightarrow> well_formed_token p" by simp
  show ?case
  proof (cases "p = []")
    case True
    then show ?thesis using Cons.IH [OF rest] by simp
  next
    case False
    with Cons.prems have wf: "well_formed_token p" by simp
    then have "count_list p (CHR '':'') = 1" by (simp add: well_formed_token_def)
    then have c: "CHR '':'' \<in> set p"
      using count_list_0_iff [of p "CHR '':''"] by auto
    let ?k = "Trim (key_spec p) '' ''" and ?v = "Trim (value_spec p) '' ''"
    have k: "splitAndTrimBySep p '':'' ! 0 = ?k" and v: "splitAndTrimBySep p '':'' ! 1 = ?v"
      by (simp_all add: well_formed_split [OF wf])
    have "buildQuery_range ps (p # rest) = buildQuery_range (ps(?k \<mapsto> ?v)) rest"
      by (simp only: buildQuery_range_step False c if_True if_False k v)
    also have "\<dots> = Inr (params_trimmed (ps(?k \<mapsto> ?v)) rest)"
      by (rule Cons.IH [OF rest])
    also have "params_trimmed (ps(?k \<mapsto> ?v)) rest = params_trimmed ps (p # rest)"
      by (simp only: params_trimmed.simps False if_False)
    finally show ?thesis .
  qed
qed

lemma params_trimmed_keeps: "ps k = Some v \<Longrightarrow> \<exists>v'. params_trimmed ps toks k = Some v'"
proof (induction toks arbitrary: ps v)
  case Nil
  then show ?case by simp
next
  case (Cons p rest)
  show ?case
  proof (cases "p = []")
    case True
    then show ?thesis using Cons.IH [of ps v, OF Cons.prems] by simp
  next
    case False
    let ?ps = "ps(Trim (key_spec p) '' '' \<mapsto> Trim (value_spec p) '' '')"
    have "\<exists>w. ?ps k = Some w"
      using Cons.prems by simp
    then obtain w where w: "?ps k = Some w" ..
    have "params_trimmed ps (p # rest) = params_trimmed ?ps rest"
      by (simp only: params_trimmed.simps False if_False)
    with Cons.IH [of ?ps w, OF w] show ?thesis by (simp only:)
  qed
qed

lemma params_trimmed_empty_iff:
  "params_trimmed Map.empty toks = Map.empty \<longleftrightarrow> (\<forall>p\<in>set toks. p = [])"
proof (induction toks)
  case Nil
  show ?case by simp
next
  case (Cons p rest)
  show ?case
  proof (cases "p = []")
    case True
    then show ?thesis using Cons.IH by simp
  next
    case False
    let ?k = "Trim (key_spec p) '' ''" and ?v = "Trim (value_spec p) '' ''"
    have "[?k \<mapsto> ?v] ?k = Some ?v" by simp
    from params_trimmed_keeps [of "[?k \<mapsto> ?v]" ?k ?v rest, OF this]
    obtain v' where v': "params_trimmed [?k \<mapsto> ?v] rest ?k = Some v'" ..
    have ne: "params_trimmed [?k \<mapsto> ?v] rest \<noteq> Map.empty"
    proof
      assume "params_trimmed [?k \<mapsto> ?v] rest = Map.empty"
      with v' show False by simp
    qed
    have "params_trimmed Map.empty (p # rest) = params_trimmed [?k \<mapsto> ?v] rest"
      by (simp only: params_trimmed.simps False if_False)
    with ne False show ?thesis by simp
  qed
qed

lemma buildQuery_abc:
  "buildQuery (meta0\<lparr>searchTemplateName := ''t'', parameters := [''a:b:c'']\<rparr>)
   = Inr [''id'' \<mapsto> JString ''t'', ''params'' \<mapsto> JObject [''a'' \<mapsto> ''b'']]"
  by (simp add: buildQuery_def meta0_def splitAndTrimBySep_map Split_def genSplit_char_in
      genSplit_char_notin Trim_def TrimLeft_def TrimRight_def)

lemma buildQuery_spec_abc:
  "buildQuery_spec ''t'' [''a:b:c'']
   = [''id'' \<mapsto> JString ''t'', ''params'' \<mapsto> JObject [''a'' \<mapsto> ''b:c'']]"
  by (simp add: buildQuery_spec_def key_spec_def value_spec_def)

lemma buildQuery_foo:
  "buildQuery (meta0\<lparr>searchTemplateName := ''t'', parameters := [''foo'']\<rparr>)
   = Inl (IndexOutOfRange 1 1)"
  by (simp add: buildQuery_def meta0_def buildQuery_range_step del: buildQuery_range.simps(2))

lemma buildQuery_a_b:
  "buildQuery (meta0\<lparr>searchTemplateName := ''t'', parameters := [''a : b'']\<rparr>)
   = Inr [''id'' \<mapsto> JString ''t'', ''params'' \<mapsto> JObject [''a'' \<mapsto> ''b'']]"
  by (simp add: buildQuery_def meta0_def splitAndTrimBySep_map Split_def genSplit_char_in
      genSplit_char_notin Trim_def TrimLeft_def TrimRight_def)

lemma buildQuery_spec_a_b:
  "buildQuery_spec ''t'' [''a : b'']
   = [''id'' \<mapsto> JString ''t'', ''params'' \<mapsto> JObject [''a '' \<mapsto> '' b'']]"
  by (simp add: buildQuery_spec_def key_spec_def value_spec_def)

lemma params_differ:
  "ps k \<noteq> qs k \<Longrightarrow>
   [''id'' \<mapsto> JString t, ''params'' \<mapsto> JObject ps] \<noteq> [''id'' \<mapsto> JString t, ''params'' \<mapsto> JObject qs]"
proof
  assume d: "ps k \<noteq> qs k"
  assume "[''id'' \<mapsto> JString t, ''params'' \<mapsto> JObject ps]
      = [''id'' \<mapsto> JString t, ''params'' \<mapsto> JObject qs]"
  then have "JObject ps = JObject qs" by (rule map_upd_eqD1)
  with d show False by simp
qed

text \<open>
  C4 (as the specification states it). Against the builder of the specification, which
  cuts a token at its first colon: on the token \<^verbatim>\<open>a:b:c\<close> the code gives \<open>a\<close> the
  value \<open>b\<close>, not \<open>b:c\<close>; on the token \<^verbatim>\<open>foo\<close> it returns no document; on the token
  \<^verbatim>\<open>a : b\<close> the key is \<open>a\<close> without the space.
\<close>

theorem buildQuery_not_first_colon_split:
  "buildQuery (meta0\<lparr>searchTemplateName := ''t'', parameters := [''a:b:c'']\<rparr>)
     \<noteq> Inr (buildQuery_spec ''t'' [''a:b:c''])
   \<and> buildQuery (meta0\<lparr>searchTemplateName := ''t'', parameters := [''foo'']\<rparr>)
     \<noteq> Inr (buildQuery_spec ''t'' [''foo''])
   \<and> buildQuery (meta0\<lparr>searchTemplateName := ''t'', parameters := [''a : b'']\<rparr>)
     \<noteq> Inr (buildQuery_spec ''t'' [''a : b''])"
proof -
  have "[''a'' \<mapsto> ''b''] ''a'' \<noteq> [''a'' \<mapsto> ''b:c''] ''a''" by simp
  then have 1: "[''id'' \<mapsto> JString ''t'', ''params'' \<mapsto> JObject [''a'' \<mapsto> ''b'']]
      \<noteq> [''id'' \<mapsto> JString ''t'', ''params'' \<mapsto> JObject [''a'' \<mapsto> ''b:c'']]"
    by (rule params_differ)
  have "[''a'' \<mapsto> ''b''] ''a'' \<noteq> [''a '' \<mapsto> '' b''] ''a''" by simp
  then have 2: "[''id'' \<mapsto> JString ''t'', ''params'' \<mapsto> JObject [''a'' \<mapsto> ''b'']]
      \<noteq> [''id'' \<mapsto> JString ''t'', ''params'' \<mapsto> JObject [''a '' \<mapsto> '' b'']]"
    by (rule params_differ)
  from 1 2 show ?thesis
    unfolding buildQuery_abc buildQuery_spec_abc buildQuery_foo buildQuery_a_b buildQuery_spec_a_b
    by simp
qed

text \<open>
  C4 (amended). For every metadata whose non-empty parameter tokens each have exactly
  one colon, \<open>buildQuery\<close> returns a document whose \<^verbatim>\<open>id\<close> is the template name and
  whose \<^verbatim>\<open>params\<close> is there exactly when the parameter mapping is not empty, which is
  exactly when there is a non-empty token. The mapping is built by skipping the empty
  tokens and taking of each other token the text before the colon as the key and the text
  behind it as the value, both trimmed of surrounding spaces; a later key overwrites an
  earlier one. With no parameters there is no \<^verbatim>\<open>params\<close>, and the token \<^verbatim>\<open>a:b\<close> alone
  gives the parameters \<open>a\<close> to \<open>b\<close>.
\<close>

theorem buildQuery_document:
  assumes "\<forall>p\<in>set (parameters md). p \<noteq> [] \<longrightarrow> well_formed_token p"
  shows "\<exists>q. buildQuery md = Inr q
     \<and> q ''id'' = Some (JString (searchTemplateName md))
     \<and> (q ''params'' =
          (if params_trimmed Map.empty (parameters md) = Map.empty then None
           else Some (JObject (params_trimmed Map.empty (parameters md)))))
     \<and> dom q \<subseteq> {''id'', ''params''}
     \<and> (''params'' \<in> dom q \<longleftrightarrow> params_trimmed Map.empty (parameters md) \<noteq> Map.empty)
     \<and> (''params'' \<in> dom q \<longleftrightarrow> (\<exists>p\<in>set (parameters md). p \<noteq> []))"
proof -
  define ps where "ps = params_trimmed Map.empty (parameters md)"
  define q where "q = (if ps \<noteq> Map.empty
      then [''id'' \<mapsto> JString (searchTemplateName md), ''params'' \<mapsto> JObject ps]
      else [''id'' \<mapsto> JString (searchTemplateName md)])"
  have r: "buildQuery_range Map.empty (parameters md) = Inr ps"
    unfolding ps_def using assms by (rule buildQuery_range_well_formed)
  have b: "buildQuery md = Inr q"
    by (simp add: buildQuery_def r q_def Let_def)
  have e: "ps \<noteq> Map.empty \<longleftrightarrow> (\<exists>p\<in>set (parameters md). p \<noteq> [])"
    unfolding ps_def by (simp add: params_trimmed_empty_iff)
  have 1: "q ''id'' = Some (JString (searchTemplateName md))"
    by (simp add: q_def)
  have 2: "q ''params'' = (if ps = Map.empty then None else Some (JObject ps))"
    by (simp add: q_def)
  have 3: "dom q \<subseteq> {''id'', ''params''}"
    by (auto simp: q_def split: if_splits)
  have 4: "''params'' \<in> dom q \<longleftrightarrow> ps \<noteq> Map.empty"
    by (simp add: q_def dom_def)
  have 5: "''params'' \<in> dom q \<longleftrightarrow> (\<exists>p\<in>set (parameters md). p \<noteq> [])"
    using 4 e by simp
  from b 1 2 3 4 5 show ?thesis
    unfolding ps_def [symmetric] by (intro exI [of _ q] conjI)
qed

theorem buildQuery_document_witness:
  "(\<exists>q. buildQuery (meta0\<lparr>searchTemplateName := ''t'', parameters := [''a:b'']\<rparr>) = Inr q
         \<and> q ''id'' = Some (JString ''t'')
         \<and> q ''params'' = Some (JObject [''a'' \<mapsto> ''b'']))
   \<and> (\<exists>q. buildQuery (meta0\<lparr>searchTemplateName := ''t'', parameters := []\<rparr>) = Inr q
         \<and> q ''id'' = Some (JString ''t'') \<and> ''params'' \<notin> dom q)
   \<and> (\<exists>q. buildQuery (meta0\<lparr>searchTemplateName := ''t'',
                 parameters := [''a:1'', '''', ''a : 2'']\<rparr>) = Inr q
         \<and> q ''params'' = Some (JObject [''a'' \<mapsto> ''2'']))"
proof -
  let ?m1 = "meta0\<lparr>searchTemplateName := ''t'', parameters := [''a:b'']\<rparr>"
  let ?m0 = "meta0\<lparr>searchTemplateName := ''t'', parameters := []\<rparr>"
  let ?m2 = "meta0\<lparr>searchTemplateName := ''t'', parameters := [''a:1'', '''', ''a : 2'']\<rparr>"
  have w1: "\<forall>p\<in>set (parameters ?m1). p \<noteq> [] \<longrightarrow> well_formed_token p"
    and w0: "\<forall>p\<in>set (parameters ?m0). p \<noteq> [] \<longrightarrow> well_formed_token p"
    and w2: "\<forall>p\<in>set (parameters ?m2). p \<noteq> [] \<longrightarrow> well_formed_token p"
    by (simp_all add: meta0_def well_formed_token_def)
  have p1: "params_trimmed Map.empty (parameters ?m1) = [''a'' \<mapsto> ''b'']"
    and p0: "params_trimmed Map.empty (parameters ?m0) = Map.empty"
    and p2: "params_trimmed Map.empty (parameters ?m2) = [''a'' \<mapsto> ''2'']"
    by (simp_all add: meta0_def key_spec_def value_spec_def Trim_def TrimLeft_def TrimRight_def)
  have n: "searchTemplateName ?m1 = ''t''" "searchTemplateName ?m0 = ''t''"
    by (simp_all add: meta0_def)
  from buildQuery_document [OF w1] obtain q1 where q1: "buildQuery ?m1 = Inr q1"
    "q1 ''id'' = Some (JString ''t'')" "q1 ''params'' = Some (JObject [''a'' \<mapsto> ''b''])"
    unfolding p1 n by auto
  from buildQuery_document [OF w0] obtain q0 where q0: "buildQuery ?m0 = Inr q0"
    "q0 ''id'' = Some (JString ''t'')" "''params'' \<notin> dom q0"
    unfolding p0 n by auto
  from buildQuery_document [OF w2] obtain q2 where q2: "buildQuery ?m2 = Inr q2"
    "q2 ''params'' = Some (JObject [''a'' \<mapsto> ''2''])"
    unfolding p2 by auto
  from q1 have e1: "\<exists>q. buildQuery ?m1 = Inr q \<and> q ''id'' = Some (JString ''t'')
      \<and> q ''params'' = Some (JObject [''a'' \<mapsto> ''b''])"
    by (intro exI [of _ q1] conjI)
  from q0 have e0: "\<exists>q. buildQuery ?m0 = Inr q \<and> q ''id'' = Some (JString ''t'')
      \<and> ''params'' \<notin> dom q"
    by (intro exI [of _ q0] conjI)
  from q2 have e2: "\<exists>q. buildQuery ?m2 = Inr q
      \<and> q ''params'' = Some (JObject [''a'' \<mapsto> ''2''])"
    by (intro exI [of _ q2] conjI)
  from e1 e0 e2 show ?thesis by (intro conjI)
qed

end
